theory Spec2Isabelle
  imports Main "HOL-Library.Word"
begin

unbundle bit_operations_syntax

section \<open>The logging module of i3 (src/log.c)\<close>

text \<open>
  The module keeps four file-scope variables (\<^verbatim>\<open>loglevel\<close>, \<^verbatim>\<open>verbose\<close>,
  \<^verbatim>\<open>errorfile\<close>, \<^verbatim>\<open>errorfilename\<close>) and writes to standard output and to the
  error-log stream. The embedding passes them around as one record. Everything the C
  library and the host program supply is an argument of the function that uses it: the
  table \<^verbatim>\<open>loglevels\<close> of \<^verbatim>\<open>loglevels.h\<close>, the clock reading and the bytes
  \<^verbatim>\<open>strftime\<close> produces, the expansion of a format string by \<^verbatim>\<open>vprintf\<close>, the result of
  \<^verbatim>\<open>get_process_filename\<close> and whether \<^verbatim>\<open>fopen\<close> succeeds.
\<close>

subsection \<open>C strings and \<^verbatim>\<open>strcasecmp\<close>\<close>

text \<open>
  A \<^verbatim>\<open>const char *\<close> is modelled by the list of its bytes; the end of the list stands for
  the terminating NUL, and a NUL inside the list ends the string as it does in C.
  \<^verbatim>\<open>tolower\<close> is that of the C locale: only the ASCII letters A to Z change.
\<close>

definition tolower :: "char \<Rightarrow> char" where
  "tolower c = (let n = (of_char c :: nat) in if 65 \<le> n \<and> n \<le> 90 then char_of (n + 32) else c)"

text \<open>
  \<^verbatim>\<open>strcasecmp\<close> of the C library: walk both strings, compare the lower-cased bytes, stop
  at the first difference or at the terminator; the result is the difference of the two
  lower-cased bytes (0 when the strings are equal up to letter case).
\<close>

fun strcasecmp :: "string \<Rightarrow> string \<Rightarrow> int" where
  "strcasecmp [] [] = 0"
| "strcasecmp [] (b # bs) = 0 - int (of_char (tolower b))"
| "strcasecmp (a # as) [] = int (of_char (tolower a)) - 0"
| "strcasecmp (a # as) (b # bs) =
     (if tolower a \<noteq> tolower b then int (of_char (tolower a)) - int (of_char (tolower b))
      else if a = CHR 0x00 then 0
      else strcasecmp as bs)"

subsection \<open>State\<close>

text \<open>
  A stdio stream open for writing: the bytes that have reached the file and the bytes
  still in the stream's buffer.
\<close>

record stream =
  written :: string
  pending :: string

definition vfprintf :: "stream \<Rightarrow> string \<Rightarrow> stream" where
  "vfprintf f out = f\<lparr>pending := pending f @ out\<rparr>"

definition fflush :: "stream \<Rightarrow> stream" where
  "fflush f = f\<lparr>written := written f @ pending f, pending := []\<rparr>"

text \<open>
  The module's variables. \<^verbatim>\<open>errorfile\<close> and \<^verbatim>\<open>errorfilename\<close> are pointers:
  \<open>None\<close> is NULL. \<open>stdout\<close> records, in call order, what each \<^verbatim>\<open>printf\<close> or
  \<^verbatim>\<open>vprintf\<close> call handed to standard output.
\<close>

record log_state =
  loglevel :: "64 word"
  verbose :: bool
  errorfile :: "stream option"
  errorfilename :: "string option"
  stdout :: "string list"

text \<open>The values at program start: the initialisers of the source, NULL for the two
  pointers, nothing printed yet.\<close>

definition initial_state :: log_state where
  "initial_state =
     \<lparr>loglevel = 0, verbose = True, errorfile = None, errorfilename = None, stdout = []\<rparr>"

definition UINT64_MAX :: "64 word" where
  "UINT64_MAX = 18446744073709551615"

text \<open>
  A call of \<^verbatim>\<open>vfprintf\<close> on a NULL stream does not return: the process ends there. The
  model makes it a fault, returned together with the state reached when it happens.
\<close>

datatype fault = NullStream

type_synonym result = "(fault \<times> log_state) + log_state"

text \<open>The state in which a call ended, whether it returned or faulted.\<close>

fun state_of :: "result \<Rightarrow> log_state" where
  "state_of (Inl (f, st)) = st"
| "state_of (Inr st) = st"

text \<open>Sequencing of two calls: the second one runs if the first one returns.\<close>

fun and_then :: "result \<Rightarrow> (log_state \<Rightarrow> result) \<Rightarrow> result" where
  "and_then (Inl e) g = Inl e"
| "and_then (Inr st) g = g st"

subsection \<open>\<^verbatim>\<open>set_verbosity\<close>\<close>

definition set_verbosity :: "bool \<Rightarrow> log_state \<Rightarrow> log_state" where
  "set_verbosity v st = st\<lparr>verbose := v\<rparr>"

subsection \<open>\<^verbatim>\<open>add_loglevel\<close>\<close>

text \<open>
  \<^verbatim>\<open>E1 << E2\<close> on \<^verbatim>\<open>int\<close>, as the compiled code computes it on the platforms i3 runs
  on: \<^verbatim>\<open>int\<close> has 32 bits in two's complement and the shift instruction takes its count
  modulo 32. For counts up to 30 this is the value \<open>E1 * 2 ^ E2\<close> of ISO C; count 31
  gives \<^verbatim>\<open>INT_MIN\<close> for \<open>E1 = 1\<close>, and count 32 starts again at \<open>E1\<close>.
\<close>

definition shl_int :: "32 word \<Rightarrow> nat \<Rightarrow> 32 word" where
  "shl_int e1 e2 = push_bit (e2 mod 32) e1"

text \<open>The conversion of an \<^verbatim>\<open>int\<close> to \<^verbatim>\<open>uint64_t\<close>: the value modulo \<open>2 ^ 64\<close>, that is
  the sign extension of its 32 bits.\<close>

definition int_to_uint64 :: "32 word \<Rightarrow> 64 word" where
  "int_to_uint64 x = scast x"

text \<open>
  The \<^verbatim>\<open>for\<close> loop of \<^verbatim>\<open>add_loglevel\<close> from index \<open>i\<close> on. \<open>lls\<close> is the array
  \<^verbatim>\<open>loglevels\<close> of the generated header. In \<^verbatim>\<open>loglevel |= (1 << (i+1))\<close> the shift is
  done in \<^verbatim>\<open>int\<close>, since the literal \<^verbatim>\<open>1\<close> is an \<^verbatim>\<open>int\<close>; its result is then converted
  to \<^verbatim>\<open>uint64_t\<close> for the bitwise or.
\<close>

function add_loglevel_loop :: "string list \<Rightarrow> nat \<Rightarrow> string \<Rightarrow> log_state \<Rightarrow> result" where
  "add_loglevel_loop lls i level st =
     (if i < length lls then
        (if strcasecmp (lls ! i) level \<noteq> 0 then add_loglevel_loop lls (i + 1) level st
         else Inr (st\<lparr>loglevel := loglevel st OR int_to_uint64 (shl_int 1 (i + 1))\<rparr>))
      else Inr st)"
  by pat_completeness auto
termination
  by (relation "measure (\<lambda>(lls, i, level, st). length lls - i)") auto

declare add_loglevel_loop.simps [simp del]

definition add_loglevel :: "string list \<Rightarrow> string \<Rightarrow> log_state \<Rightarrow> result" where
  "add_loglevel lls level st =
     (if strcasecmp level ''all'' = 0 then Inr (st\<lparr>loglevel := UINT64_MAX\<rparr>)
      else add_loglevel_loop lls 0 level st)"

subsection \<open>\<^verbatim>\<open>vlog\<close> and the three emitters\<close>

text \<open>
  What one call of \<^verbatim>\<open>vlog\<close> reads from outside the module: whether the file was
  compiled with \<^verbatim>\<open>DEBUG_TIMING\<close>, the bytes \<^verbatim>\<open>strftime\<close> left in \<^verbatim>\<open>timebuf\<close> for the
  format \<^verbatim>\<open>"%x %X - "\<close>, and the reading of \<^verbatim>\<open>gettimeofday\<close>.
\<close>

record env =
  DEBUG_TIMING :: bool
  timebuf :: string
  tv_sec :: "64 word"
  tv_usec :: "64 word"

text \<open>The decimal digits of a number.\<close>

fun dec :: "nat \<Rightarrow> string" where
  "dec n = (if n < 10 then [char_of (48 + n)] else dec (n div 10) @ [char_of (48 + n mod 10)])"

declare dec.simps [simp del]

text \<open>
  \<^verbatim>\<open>%d\<close> applied to a \<^verbatim>\<open>long\<close> argument (\<^verbatim>\<open>tv_sec\<close>, \<^verbatim>\<open>tv_usec\<close>): the low 32 bits of
  the argument are read as a signed \<^verbatim>\<open>int\<close> and printed in decimal.
\<close>

definition printf_d :: "64 word \<Rightarrow> string" where
  "printf_d x =
     (let v = sint (ucast x :: 32 word) in
      if v < 0 then CHR ''-'' # dec (nat (- v)) else dec (nat v))"

text \<open>The first \<^verbatim>\<open>printf\<close> of \<^verbatim>\<open>vlog\<close>: the time prefix.\<close>

definition time_prefix :: "env \<Rightarrow> string" where
  "time_prefix e =
     (if DEBUG_TIMING e
      then timebuf e @ printf_d (tv_sec e) @ ''.'' @ printf_d (tv_usec e) @ '' - ''
      else timebuf e)"

text \<open>
  \<open>vformat fmt args\<close> is the expansion of the format string against the argument pack,
  as \<^verbatim>\<open>vprintf\<close> and \<^verbatim>\<open>vfprintf\<close> compute it.
\<close>

definition vlog :: "env \<Rightarrow> (string \<Rightarrow> 'a list \<Rightarrow> string) \<Rightarrow> string \<Rightarrow> 'a list \<Rightarrow> log_state \<Rightarrow> log_state" where
  "vlog e vformat fmt args st = st\<lparr>stdout := stdout st @ [time_prefix e, vformat fmt args]\<rparr>"

definition verboselog :: "env \<Rightarrow> (string \<Rightarrow> 'a list \<Rightarrow> string) \<Rightarrow> string \<Rightarrow> 'a list \<Rightarrow> log_state \<Rightarrow> log_state" where
  "verboselog e vformat fmt args st = (if \<not> verbose st then st else vlog e vformat fmt args st)"

text \<open>
  \<^verbatim>\<open>errorlog\<close> calls \<^verbatim>\<open>vlog\<close> and then \<^verbatim>\<open>vfprintf(errorfile, ...)\<close> and
  \<^verbatim>\<open>fflush(errorfile)\<close> with no test of the pointer.
\<close>

definition errorlog :: "env \<Rightarrow> (string \<Rightarrow> 'a list \<Rightarrow> string) \<Rightarrow> string \<Rightarrow> 'a list \<Rightarrow> log_state \<Rightarrow> result" where
  "errorlog e vformat fmt args st =
     (let st1 = vlog e vformat fmt args st in
      case errorfile st1 of
        None \<Rightarrow> Inl (NullStream, st1)
      | Some f \<Rightarrow> Inr (st1\<lparr>errorfile := Some (fflush (vfprintf f (vformat fmt args)))\<rparr>))"

definition debuglog :: "env \<Rightarrow> (string \<Rightarrow> 'a list \<Rightarrow> string) \<Rightarrow> 64 word \<Rightarrow> string \<Rightarrow> 'a list \<Rightarrow> log_state \<Rightarrow> log_state" where
  "debuglog e vformat lev fmt args st =
     (if loglevel st AND lev = 0 then st else vlog e vformat fmt args st)"

subsection \<open>\<^verbatim>\<open>init_logging\<close>\<close>

text \<open>
  Modelled from the spec: the macro \<^verbatim>\<open>ELOG\<close> of \<^verbatim>\<open>log.h\<close> is not among the sources. The
  spec has the message go through the normal error emit path, with no arguments.
\<close>

definition ELOG :: "env \<Rightarrow> (string \<Rightarrow> 'a list \<Rightarrow> string) \<Rightarrow> string \<Rightarrow> log_state \<Rightarrow> result" where
  "ELOG e vformat msg st = errorlog e vformat msg [] st"

text \<open>
  \<open>get_process_filename\<close> is the helper of the host program (\<open>None\<close> is its NULL);
  \<open>fopen_ok\<close> says whether \<^verbatim>\<open>fopen(errorfilename, "w")\<close> succeeds, and a stream opened
  with mode \<^verbatim>\<open>"w"\<close> starts on an empty file.
\<close>

definition init_logging :: "env \<Rightarrow> (string \<Rightarrow> 'a list \<Rightarrow> string) \<Rightarrow> (string \<Rightarrow> string option) \<Rightarrow> bool \<Rightarrow> log_state \<Rightarrow> result" where
  "init_logging e vformat get_process_filename fopen_ok st =
     (let st1 = st\<lparr>errorfilename := get_process_filename ''errorlog''\<rparr> in
      if errorfilename st1 = None then ELOG e vformat ''Could not initialize errorlog\<newline>'' st1
      else Inr (st1\<lparr>errorfile := (if fopen_ok then Some \<lparr>written = [], pending = []\<rparr> else None)\<rparr>))"

subsection \<open>Auxiliary notions\<close>

text \<open>The bytes of a C string: everything before the first NUL.\<close>

definition cstr :: "string \<Rightarrow> string" where
  "cstr s = takeWhile (\<lambda>c. c \<noteq> CHR 0x00) s"

text \<open>
  A clock reading and a formatter for the worked examples: a build without
  \<^verbatim>\<open>DEBUG_TIMING\<close>, and format strings without conversion specifications, which expand
  to themselves.
\<close>

definition example_env :: env where
  "example_env =
     \<lparr>DEBUG_TIMING = False, timebuf = ''01/02/10 12:00:00 - '', tv_sec = 0, tv_usec = 0\<rparr>"

definition literal_format :: "string \<Rightarrow> unit list \<Rightarrow> string" where
  "literal_format fmt args = fmt"

section \<open>Properties of \<^verbatim>\<open>strcasecmp\<close>\<close>

lemma of_char_tolower:
  "(of_char (tolower c) :: nat) =
     (if 65 \<le> (of_char c :: nat) \<and> (of_char c :: nat) \<le> 90 then of_char c + 32 else of_char c)"
  by (simp add: tolower_def Let_def)

lemma of_char_eq_0_iff: "(of_char c :: nat) = 0 \<longleftrightarrow> c = CHR 0x00"
proof -
  have "(of_char c :: nat) = of_char (CHR 0x00) \<longleftrightarrow> c = CHR 0x00"
    by (rule of_char_eq_iff)
  then show ?thesis by simp
qed

lemma tolower_eq_nul [simp]: "tolower c = CHR 0x00 \<longleftrightarrow> c = CHR 0x00"
proof -
  have "tolower c = CHR 0x00 \<longleftrightarrow> (of_char (tolower c) :: nat) = 0"
    by (simp add: of_char_eq_0_iff)
  also have "\<dots> \<longleftrightarrow> (of_char c :: nat) = 0"
    by (simp add: of_char_tolower)
  finally show ?thesis by (simp add: of_char_eq_0_iff)
qed

lemma nul_eq_tolower [simp]: "CHR 0x00 = tolower c \<longleftrightarrow> c = CHR 0x00"
  using tolower_eq_nul [of c] by metis

lemma tolower_nul [simp]: "tolower (CHR 0x00) = CHR 0x00"
  by simp

text \<open>Two strings compare equal exactly when their bytes agree up to letter case.\<close>

lemma strcasecmp_0_iff:
  "strcasecmp a b = 0 \<longleftrightarrow> map tolower (cstr a) = map tolower (cstr b)"
  by (induction a b rule: strcasecmp.induct) (auto simp: cstr_def of_char_eq_0_iff)

lemma strcasecmp_same: "strcasecmp s s = 0"
  by (simp add: strcasecmp_0_iff)

lemma strcasecmp_common_left:
  "strcasecmp a b = 0 \<Longrightarrow> strcasecmp a c = 0 \<Longrightarrow> strcasecmp c b = 0"
  by (simp add: strcasecmp_0_iff)

lemma strcasecmp_spelling_of_all: "map tolower s = ''all'' \<Longrightarrow> strcasecmp s ''all'' = 0"
  by (auto simp: strcasecmp_0_iff cstr_def map_eq_Cons_conv tolower_def)

section \<open>Properties of the mask arithmetic\<close>

lemma UINT64_MAX_minus_1: "UINT64_MAX = - 1"
  by (simp add: UINT64_MAX_def)

lemma UINT64_MAX_bits: "n < 64 \<Longrightarrow> bit UINT64_MAX n"
  by (simp add: UINT64_MAX_minus_1)

lemma UINT64_MAX_and: "UINT64_MAX AND lev = lev"
  by (simp add: UINT64_MAX_minus_1)

lemma scast_push_bit_1:
  "n < 31 \<Longrightarrow> (scast (push_bit n (1 :: 32 word)) :: 64 word) = push_bit n 1"
  by (rule bit_eqI) (auto simp: bit_simps)

text \<open>Up to index 29 the \<^verbatim>\<open>int\<close> shift gives the bit it is meant to give.\<close>

lemma int_shift_small: "k < 30 \<Longrightarrow> int_to_uint64 (shl_int 1 (k + 1)) = push_bit (k + 1) 1"
proof -
  assume "k < 30"
  then have m: "(k + 1) mod 32 = k + 1" and l: "k + 1 < 31" by simp_all
  have "int_to_uint64 (shl_int 1 (k + 1)) = scast (push_bit (k + 1) (1 :: 32 word))"
    by (simp only: shl_int_def int_to_uint64_def m)
  also have "\<dots> = push_bit (k + 1) 1"
    using l by (rule scast_push_bit_1)
  finally show ?thesis .
qed

text \<open>
  From index 30 on it does not: the mask is a \<^verbatim>\<open>uint64_t\<close>, but the one that is shifted
  is an \<^verbatim>\<open>int\<close>. Index 30 gives \<^verbatim>\<open>INT_MIN\<close>, whose conversion sets bits 31 to 63; index
  31 gives bit 0, index 32 gives bit 1, which belongs to index 0.
\<close>

lemma int_shift_index_30: "int_to_uint64 (shl_int 1 (30 + 1)) = 0xffffffff80000000"
  by (simp add: shl_int_def int_to_uint64_def)

lemma int_shift_index_31: "int_to_uint64 (shl_int 1 (31 + 1)) = 1"
  by (simp add: shl_int_def int_to_uint64_def)

lemma int_shift_index_32: "int_to_uint64 (shl_int 1 (32 + 1)) = push_bit (0 + 1) 1"
  by (simp add: shl_int_def int_to_uint64_def)

lemma and_or_bit_nonzero:
  "n < 64 \<Longrightarrow> bit lev n \<Longrightarrow> (m OR push_bit n 1) AND (lev :: 64 word) \<noteq> 0"
proof
  assume n: "n < 64" and b: "bit lev n" and z: "(m OR push_bit n 1) AND lev = 0"
  have "bit ((m OR push_bit n 1) AND lev) n"
    using n b by (simp add: bit_and_iff bit_or_iff bit_exp_iff)
  with z show False by simp
qed

lemma and_or_bit_zero:
  "m AND lev = 0 \<Longrightarrow> \<not> bit lev n \<Longrightarrow> (m OR push_bit n 1) AND (lev :: 64 word) = 0"
proof (rule bit_eqI)
  fix k
  assume z: "m AND lev = 0" and nb: "\<not> bit lev n"
  from z have "\<not> bit (m AND lev) k" by simp
  then have "\<not> (bit m k \<and> bit lev k)" by (simp add: bit_and_iff)
  with nb show "bit ((m OR push_bit n 1) AND lev) k = bit (0 :: 64 word) k"
    by (auto simp: bit_and_iff bit_or_iff bit_exp_iff)
qed

lemma bit_push_bit_1_D: "bit (push_bit n (1 :: 64 word)) m \<Longrightarrow> m = n"
  by (auto simp: bit_exp_iff)

lemma word_and_or_absorb: "(m :: 64 word) AND (m OR v) = m"
  by (rule bit_eqI) (auto simp: bit_and_iff bit_or_iff)

section \<open>The search loop of \<^verbatim>\<open>add_loglevel\<close>\<close>

text \<open>No entry from index \<open>i\<close> on matches: the loop runs to the end and changes nothing.\<close>

lemma loop_no_match:
  "\<forall>j. i \<le> j \<and> j < length lls \<longrightarrow> strcasecmp (lls ! j) level \<noteq> 0 \<Longrightarrow>
   add_loglevel_loop lls i level st = Inr st"
proof (induction lls i level st rule: add_loglevel_loop.induct)
  case (1 lls i level st)
  show ?case
  proof (cases "i < length lls")
    case True
    with 1 show ?thesis
      by (subst add_loglevel_loop.simps) simp
  next
    case False
    then show ?thesis by (subst add_loglevel_loop.simps) simp
  qed
qed

text \<open>The first match from index \<open>i\<close> on is at \<open>k\<close>: the loop stops there and shifts by
  \<open>k + 1\<close>.\<close>

lemma loop_first_match:
  "i \<le> k \<Longrightarrow> k < length lls \<Longrightarrow> strcasecmp (lls ! k) level = 0 \<Longrightarrow>
   \<forall>j. i \<le> j \<and> j < k \<longrightarrow> strcasecmp (lls ! j) level \<noteq> 0 \<Longrightarrow>
   add_loglevel_loop lls i level st =
     Inr (st\<lparr>loglevel := loglevel st OR int_to_uint64 (shl_int 1 (k + 1))\<rparr>)"
proof (induction lls i level st rule: add_loglevel_loop.induct)
  case (1 lls i level st)
  show ?case
  proof (cases "i = k")
    case True
    with 1 show ?thesis
      by (subst add_loglevel_loop.simps) simp
  next
    case False
    with 1 have lt: "i < k" and nm: "strcasecmp (lls ! i) level \<noteq> 0" by auto
    from lt 1 have "i < length lls" by simp
    moreover from lt have "i + 1 \<le> k" by simp
    ultimately show ?thesis
      using nm 1
      by (subst add_loglevel_loop.simps) simp
  qed
qed

text \<open>Among the matching indices there is a first one.\<close>

lemma first_match_exists:
  assumes "\<exists>k. k < length lls \<and> strcasecmp (lls ! k) level = 0"
  shows "\<exists>k. k < length lls \<and> strcasecmp (lls ! k) level = 0 \<and>
             (\<forall>j. 0 \<le> j \<and> j < k \<longrightarrow> strcasecmp (lls ! j) level \<noteq> 0)"
proof -
  define k where "k = (LEAST k. k < length lls \<and> strcasecmp (lls ! k) level = 0)"
  from assms have a: "k < length lls \<and> strcasecmp (lls ! k) level = 0"
    unfolding k_def by (rule LeastI_ex)
  have "strcasecmp (lls ! j) level \<noteq> 0" if j: "0 \<le> j \<and> j < k" for j
  proof
    assume "strcasecmp (lls ! j) level = 0"
    with a j have "j < length lls \<and> strcasecmp (lls ! j) level = 0" by simp
    then have "k \<le> j" unfolding k_def by (rule Least_le)
    with j show False by simp
  qed
  with a show ?thesis by blast
qed

text \<open>
  A call always returns, and what it does is fixed by the table and the name, not by
  the state: it ors one fixed value into the mask and touches nothing else (the value is
  0 when no entry matches, and all ones for the reserved name).
\<close>

lemma add_loglevel_uniform:
  "\<exists>v. \<forall>st. add_loglevel lls level st = Inr (st\<lparr>loglevel := loglevel st OR v\<rparr>)"
proof (cases "strcasecmp level ''all'' = 0")
  case True
  then have "\<forall>st. add_loglevel lls level st = Inr (st\<lparr>loglevel := loglevel st OR UINT64_MAX\<rparr>)"
    by (simp add: add_loglevel_def UINT64_MAX_minus_1)
  then show ?thesis ..
next
  case nall: False
  show ?thesis
  proof (cases "\<exists>k. k < length lls \<and> strcasecmp (lls ! k) level = 0")
    case False
    then have "\<forall>st. add_loglevel_loop lls 0 level st = Inr st"
      by (simp add: loop_no_match)
    with nall have "\<forall>st. add_loglevel lls level st = Inr (st\<lparr>loglevel := loglevel st OR 0\<rparr>)"
      by (simp add: add_loglevel_def)
    then show ?thesis ..
  next
    case True
    then obtain k where a: "k < length lls" "strcasecmp (lls ! k) level = 0"
      and b: "\<forall>j. 0 \<le> j \<and> j < k \<longrightarrow> strcasecmp (lls ! j) level \<noteq> 0"
      using first_match_exists by blast
    have "\<forall>st. add_loglevel_loop lls 0 level st =
       Inr (st\<lparr>loglevel := loglevel st OR int_to_uint64 (shl_int 1 (k + 1))\<rparr>)"
      using a b by (intro allI loop_first_match) auto
    with nall have "\<forall>st. add_loglevel lls level st =
       Inr (st\<lparr>loglevel := loglevel st OR int_to_uint64 (shl_int 1 (k + 1))\<rparr>)"
      by (simp add: add_loglevel_def)
    then show ?thesis ..
  qed
qed

text \<open>A name that is not the reserved one and whose first match is at index \<open>k\<close>.\<close>

lemma add_loglevel_first_match_any:
  assumes "k < length lls" "strcasecmp level ''all'' \<noteq> 0"
    "strcasecmp (lls ! k) level = 0" "\<forall>j<k. strcasecmp (lls ! j) level \<noteq> 0"
  shows "add_loglevel lls level st =
    Inr (st\<lparr>loglevel := loglevel st OR int_to_uint64 (shl_int 1 (k + 1))\<rparr>)"
proof -
  have "add_loglevel_loop lls 0 level st =
     Inr (st\<lparr>loglevel := loglevel st OR int_to_uint64 (shl_int 1 (k + 1))\<rparr>)"
    using assms by (intro loop_first_match) auto
  with assms(2) show ?thesis
    by (simp only: add_loglevel_def if_False)
qed

lemma add_loglevel_first_match:
  assumes "k < length lls" "k < 30" "strcasecmp level ''all'' \<noteq> 0"
    "strcasecmp (lls ! k) level = 0" "\<forall>j<k. strcasecmp (lls ! j) level \<noteq> 0"
  shows "add_loglevel lls level st = Inr (st\<lparr>loglevel := loglevel st OR push_bit (k + 1) 1\<rparr>)"
proof -
  have "add_loglevel lls level st =
    Inr (st\<lparr>loglevel := loglevel st OR int_to_uint64 (shl_int 1 (k + 1))\<rparr>)"
    using assms(1,3,4,5) by (rule add_loglevel_first_match_any)
  moreover have "int_to_uint64 (shl_int 1 (k + 1)) = push_bit (k + 1) 1"
    using assms(2) by (rule int_shift_small)
  ultimately show ?thesis by (simp only:)
qed

text \<open>
  The reserved name is tested before the table is searched: a call with a name that
  equals, up to letter case, a table entry spelled "all" sets every bit.
\<close>

lemma name_of_all_entry_sets_every_bit:
  assumes "strcasecmp (lls ! i) ''all'' = 0" and "strcasecmp (lls ! i) level = 0"
  shows "add_loglevel lls level st = Inr (st\<lparr>loglevel := UINT64_MAX\<rparr>)"
proof -
  from assms have "strcasecmp level ''all'' = 0" by (rule strcasecmp_common_left)
  then show ?thesis by (simp add: add_loglevel_def)
qed

lemma loglevel_errorlog:
  "loglevel (state_of (errorlog e vformat fmt args st)) = loglevel st"
  by (simp add: errorlog_def vlog_def Let_def split: option.split)

section \<open>The claims\<close>

subsection \<open>Error emission without an error-log stream\<close>

text \<open>
  C1. The claim: an \<^verbatim>\<open>error\<close> call made while the error-log stream is absent still
  writes its time-prefixed message to standard output and returns without faulting, and
  \<^verbatim>\<open>init_logging\<close> emits "Could not initialize errorlog" through it when the path cannot
  be resolved. The source says "also log to the error logfile, if opened", but calls
  \<^verbatim>\<open>vfprintf(errorfile, ...)\<close> without testing the pointer. What the code does: at
  program start (\<^verbatim>\<open>errorfile\<close> is NULL) \<^verbatim>\<open>errorlog("x\n")\<close> hands the prefix and the
  message to standard output and then faults on the NULL stream; \<^verbatim>\<open>init_logging\<close> with
  a failing path resolution faults in the same way inside its own error message.
\<close>

theorem errorlog_null_stream_faults:
  "errorlog e vformat ''x\<newline>'' [] initial_state
     = Inl (NullStream, initial_state\<lparr>stdout := [time_prefix e, vformat ''x\<newline>'' []]\<rparr>) \<and>
   init_logging e vformat (\<lambda>base. None) fopen_ok initial_state
     = Inl (NullStream,
            initial_state\<lparr>stdout := [time_prefix e, vformat ''Could not initialize errorlog\<newline>'' []]\<rparr>)"
  by (simp add: errorlog_def init_logging_def ELOG_def vlog_def initial_state_def)

subsection \<open>Enabling one category\<close>

text \<open>
  C2, as stated, for every table of at most 63 names and every index \<open>i\<close> into it:
  enabling the name at index \<open>i\<close> sets exactly bit \<open>i + 1\<close>. It fails on the table
  \<open>[''all'']\<close> at index 0: the reserved name is tested before the table is searched,
  so the call sets all 64 bits; bit 2, clear before and not bit \<open>i + 1\<close>, is set afterwards.
\<close>

theorem add_loglevel_entry_all_counterexample:
  "length [''all''] \<le> 63 \<and> (0::nat) < length [''all''] \<and>
   add_loglevel [''all''] ([''all''] ! 0) initial_state = Inr (initial_state\<lparr>loglevel := UINT64_MAX\<rparr>) \<and>
   loglevel (initial_state\<lparr>loglevel := UINT64_MAX\<rparr>) \<noteq> loglevel initial_state OR push_bit (0 + 1) 1 \<and>
   \<not> bit (loglevel initial_state) 2 \<and> bit (loglevel (initial_state\<lparr>loglevel := UINT64_MAX\<rparr>)) 2"
  by (simp add: add_loglevel_def initial_state_def UINT64_MAX_def tolower_def)

text \<open>
  C2, amended: let \<open>i \<le> 29\<close> be an index into the table, and \<open>level\<close> a name that is
  not "all" in any letter case, equals the entry at index \<open>i\<close> up to letter case and
  equals no earlier entry up to letter case. Then \<^verbatim>\<open>add_loglevel\<close> returns, ors exactly
  bit \<open>i + 1\<close> into the mask and changes nothing else; afterwards the debug gate lets
  through every category mask that has bit \<open>i + 1\<close>, and stops every category mask that
  has not bit \<open>i + 1\<close> and had no bit enabled before.
\<close>

theorem add_loglevel_sets_bit:
  assumes "i < length lls" and "i < 30"
    and "strcasecmp level ''all'' \<noteq> 0"
    and "strcasecmp (lls ! i) level = 0"
    and "\<forall>j<i. strcasecmp (lls ! j) level \<noteq> 0"
  shows "\<exists>st'. add_loglevel lls level st = Inr st' \<and>
           st' = st\<lparr>loglevel := loglevel st OR push_bit (i + 1) 1\<rparr> \<and>
           (\<forall>lev. bit lev (i + 1) \<longrightarrow>
              debuglog e vformat lev fmt args st' = vlog e vformat fmt args st') \<and>
           (\<forall>lev. loglevel st AND lev = 0 \<and> \<not> bit lev (i + 1) \<longrightarrow>
              debuglog e vformat lev fmt args st' = st')"
proof -
  let ?st' = "st\<lparr>loglevel := loglevel st OR push_bit (i + 1) 1\<rparr>"
  have r: "add_loglevel lls level st = Inr ?st'"
    using assms by (rule add_loglevel_first_match)
  have a: "debuglog e vformat lev fmt args ?st' = vlog e vformat fmt args ?st'"
    if "bit lev (i + 1)" for lev
  proof -
    from assms(2) have "i + 1 < 64" by simp
    then have "(loglevel st OR push_bit (i + 1) 1) AND lev \<noteq> 0"
      using that by (rule and_or_bit_nonzero)
    then show ?thesis by (simp add: debuglog_def)
  qed
  have b: "debuglog e vformat lev fmt args ?st' = ?st'"
    if "loglevel st AND lev = 0 \<and> \<not> bit lev (i + 1)" for lev
  proof -
    from that have "(loglevel st OR push_bit (i + 1) 1) AND lev = 0"
      using and_or_bit_zero [of "loglevel st" lev "i + 1"] by blast
    then show ?thesis by (simp add: debuglog_def)
  qed
  from r a b show ?thesis by blast
qed

theorem add_loglevel_sets_bit_witness:
  "(1::nat) < length [''event'', ''ipc''] \<and> (1::nat) < 30 \<and>
   strcasecmp ''ipc'' ''all'' \<noteq> 0 \<and>
   strcasecmp ([''event'', ''ipc''] ! 1) ''ipc'' = 0 \<and>
   strcasecmp ([''event'', ''ipc''] ! 0) ''ipc'' \<noteq> 0 \<and>
   add_loglevel [''event'', ''ipc''] ''ipc'' initial_state = Inr (initial_state\<lparr>loglevel := 4\<rparr>) \<and>
   bit (4 :: 64 word) (1 + 1) \<and>
   debuglog example_env literal_format 4 ''hi\<newline>'' [] (initial_state\<lparr>loglevel := 4\<rparr>)
     = vlog example_env literal_format ''hi\<newline>'' [] (initial_state\<lparr>loglevel := 4\<rparr>) \<and>
   loglevel initial_state AND 2 = 0 \<and> \<not> bit (2 :: 64 word) (1 + 1) \<and>
   debuglog example_env literal_format 2 ''no\<newline>'' [] (initial_state\<lparr>loglevel := 4\<rparr>)
     = initial_state\<lparr>loglevel := 4\<rparr>"
  using add_loglevel_sets_bit
    [of 1 "[''event'', ''ipc'']" "''ipc''" initial_state example_env literal_format]
  by (simp add: tolower_def initial_state_def debuglog_def)

subsection \<open>Error emission with an error-log stream\<close>

text \<open>
  C3. When the error-log stream is present, \<^verbatim>\<open>errorlog\<close> returns; standard output has
  received the time prefix and the expansion of the format; the stream has received the
  expansion alone, without the time prefix, and has been flushed: nothing is left in its
  buffer, and the file holds what it held, what was buffered, and the expansion, in
  that order. (Writes are taken to succeed.)
\<close>

theorem errorlog_mirrors_to_file:
  "errorfile st = Some f \<Longrightarrow>
   errorlog e vformat fmt args st =
     Inr (st\<lparr>stdout := stdout st @ [time_prefix e, vformat fmt args],
             errorfile := Some (f\<lparr>written := written f @ pending f @ vformat fmt args,
                                  pending := []\<rparr>)\<rparr>)"
  by (simp add: errorlog_def vlog_def vfprintf_def fflush_def)

theorem errorlog_mirrors_to_file_witness:
  "errorfile (initial_state\<lparr>errorfile := Some \<lparr>written = [], pending = []\<rparr>\<rparr>)
     = Some \<lparr>written = [], pending = []\<rparr> \<and>
   errorlog example_env literal_format ''boom\<newline>'' []
       (initial_state\<lparr>errorfile := Some \<lparr>written = [], pending = []\<rparr>\<rparr>) =
     Inr (initial_state\<lparr>errorfile := Some \<lparr>written = ''boom\<newline>'', pending = []\<rparr>,
                         stdout := [''01/02/10 12:00:00 - '', ''boom\<newline>'']\<rparr>)"
  using errorlog_mirrors_to_file
    [of "initial_state\<lparr>errorfile := Some \<lparr>written = [], pending = []\<rparr>\<rparr>"
        "\<lparr>written = [], pending = []\<rparr>" example_env literal_format "''boom\<newline>''" "[]"]
  by (simp add: initial_state_def example_env_def literal_format_def time_prefix_def)

subsection \<open>The debug gate\<close>

text \<open>
  C4. For every mask and every call of \<^verbatim>\<open>debuglog\<close>: the call writes to standard
  output if and only if the mask and the category bits have a bit in common; what it
  then writes is the time prefix followed by the expansion of the format; and the
  verbosity flag plays no part: setting it to either value before the call gives the
  same result as setting it after the call.
\<close>

theorem debuglog_gate:
  "debuglog e vformat lev fmt args st =
     (if loglevel st AND lev \<noteq> 0
      then st\<lparr>stdout := stdout st @ [time_prefix e, vformat fmt args]\<rparr> else st) \<and>
   (stdout (debuglog e vformat lev fmt args st) \<noteq> stdout st) = (loglevel st AND lev \<noteq> 0) \<and>
   debuglog e vformat lev fmt args (set_verbosity b st)
     = set_verbosity b (debuglog e vformat lev fmt args st)"
  by (simp add: debuglog_def vlog_def set_verbosity_def)

subsection \<open>The reserved name "all"\<close>

text \<open>
  C5. For every name that is "all" in some letter case, \<^verbatim>\<open>add_loglevel\<close> returns with
  the mask \<^verbatim>\<open>UINT64_MAX\<close>, in which each of the 64 bits is set, so that afterwards
  every call of \<^verbatim>\<open>debuglog\<close> with a category mask other than 0, bit 0 and bit 63
  included, emits: standard output receives the time prefix and the expansion of the
  format.
\<close>

theorem add_loglevel_all:
  "map tolower level = ''all'' \<Longrightarrow>
   add_loglevel lls level st = Inr (st\<lparr>loglevel := UINT64_MAX\<rparr>) \<and>
   (\<forall>n<64. bit (loglevel (st\<lparr>loglevel := UINT64_MAX\<rparr>)) n) \<and>
   (\<forall>lev. lev \<noteq> 0 \<longrightarrow>
      stdout (debuglog e vformat lev fmt args (st\<lparr>loglevel := UINT64_MAX\<rparr>))
        = stdout st @ [time_prefix e, vformat fmt args])"
  by (simp add: add_loglevel_def strcasecmp_spelling_of_all UINT64_MAX_bits debuglog_def
      UINT64_MAX_and vlog_def)

theorem add_loglevel_all_witness:
  "map tolower ''ALL'' = ''all'' \<and>
   add_loglevel [''event'', ''ipc''] ''ALL'' initial_state
     = Inr (initial_state\<lparr>loglevel := UINT64_MAX\<rparr>) \<and>
   (63::nat) < 64 \<and> bit (loglevel (initial_state\<lparr>loglevel := UINT64_MAX\<rparr>)) 63 \<and>
   (0x1 :: 64 word) \<noteq> 0 \<and>
   stdout (debuglog example_env literal_format 0x1 ''a\<newline>'' []
             (initial_state\<lparr>loglevel := UINT64_MAX\<rparr>))
     = [''01/02/10 12:00:00 - '', ''a\<newline>''] \<and>
   (0x8000000000000000 :: 64 word) \<noteq> 0 \<and>
   stdout (debuglog example_env literal_format 0x8000000000000000 ''b\<newline>'' []
             (initial_state\<lparr>loglevel := UINT64_MAX\<rparr>))
     = [''01/02/10 12:00:00 - '', ''b\<newline>'']"
proof -
  have h: "map tolower ''ALL'' = ''all''" by code_simp
  show ?thesis
    using h add_loglevel_all [OF h, of "[''event'', ''ipc'']" initial_state example_env literal_format]
    by (simp add: initial_state_def example_env_def literal_format_def time_prefix_def)
qed

subsection \<open>Verbosity\<close>

text \<open>
  C6. After \<^verbatim>\<open>set_verbosity(false)\<close> a call of \<^verbatim>\<open>verboselog\<close> writes nothing (it changes
  nothing at all); after \<^verbatim>\<open>set_verbosity(true)\<close> it writes the time prefix and the
  expansion of the format; and \<^verbatim>\<open>errorlog\<close> hands the time prefix and the expansion to
  standard output whatever the flag was set to (these writes come first in
  \<^verbatim>\<open>errorlog\<close>, so they are made whether or not a stream is open).
\<close>

theorem verbosity_gates_info_only:
  "verboselog e vformat fmt args (set_verbosity False st) = set_verbosity False st \<and>
   verboselog e vformat fmt args (set_verbosity True st)
     = (set_verbosity True st)\<lparr>stdout := stdout st @ [time_prefix e, vformat fmt args]\<rparr> \<and>
   stdout (state_of (errorlog e vformat fmt args (set_verbosity b st)))
     = stdout st @ [time_prefix e, vformat fmt args]"
  by (simp add: verboselog_def set_verbosity_def vlog_def errorlog_def Let_def
      split: option.split)

subsection \<open>The mask over time\<close>

text \<open>
  C7. Bits are only set: every call of \<^verbatim>\<open>add_loglevel\<close> returns, and every bit that was
  set before the call is set after it. The mask depends on nothing but the calls of
  \<^verbatim>\<open>add_loglevel\<close>: started from two states with the same mask, the same call returns
  with the same mask, and no other operation of the module changes the mask.
\<close>

theorem loglevel_monotonic:
  "(\<exists>st'. add_loglevel lls level st = Inr st' \<and>
          loglevel st AND loglevel st' = loglevel st) \<and>
   (loglevel st1 = loglevel st2 \<longrightarrow>
      (\<exists>s1 s2. add_loglevel lls level st1 = Inr s1 \<and> add_loglevel lls level st2 = Inr s2 \<and>
               loglevel s1 = loglevel s2)) \<and>
   loglevel (set_verbosity v st) = loglevel st \<and>
   loglevel (verboselog e vformat fmt args st) = loglevel st \<and>
   loglevel (debuglog e vformat lev fmt args st) = loglevel st \<and>
   loglevel (state_of (errorlog e vformat fmt args st)) = loglevel st \<and>
   loglevel (state_of (init_logging e vformat gpf fopen_ok st)) = loglevel st"
proof -
  obtain w where w: "\<And>st. add_loglevel lls level st = Inr (st\<lparr>loglevel := loglevel st OR w\<rparr>)"
    using add_loglevel_uniform [of lls level] by blast
  have 1: "\<exists>st'. add_loglevel lls level st = Inr st' \<and>
          loglevel st AND loglevel st' = loglevel st"
    by (simp add: w word_and_or_absorb)
  have 2: "\<exists>s1 s2. add_loglevel lls level st1 = Inr s1 \<and> add_loglevel lls level st2 = Inr s2 \<and>
               loglevel s1 = loglevel s2" if "loglevel st1 = loglevel st2"
    using that by (simp add: w)
  have 3: "loglevel (set_verbosity v st) = loglevel st"
    by (simp add: set_verbosity_def)
  have 4: "loglevel (verboselog e vformat fmt args st) = loglevel st"
    by (simp add: verboselog_def vlog_def)
  have 5: "loglevel (debuglog e vformat lev fmt args st) = loglevel st"
    by (simp add: debuglog_def vlog_def)
  have 6: "loglevel (state_of (errorlog e vformat fmt args st)) = loglevel st"
    by (rule loglevel_errorlog)
  have 7: "loglevel (state_of (init_logging e vformat gpf fopen_ok st)) = loglevel st"
    by (simp add: init_logging_def ELOG_def loglevel_errorlog Let_def)
  from 1 2 3 4 5 6 7 show ?thesis by blast
qed

text \<open>The example is a table of 32 names and the name at index 30, where the shift
  is done past the range of \<^verbatim>\<open>int\<close>.\<close>

theorem loglevel_monotonic_witness:
  "loglevel initial_state = loglevel (set_verbosity False initial_state) \<and>
   (\<exists>s1 s2. add_loglevel (replicate 30 ''x'' @ [''foo'', ''bar'']) ''foo'' initial_state = Inr s1 \<and>
      add_loglevel (replicate 30 ''x'' @ [''foo'', ''bar'']) ''foo''
        (set_verbosity False initial_state) = Inr s2 \<and>
      loglevel s1 = loglevel s2) \<and>
   add_loglevel (replicate 30 ''x'' @ [''foo'', ''bar'']) ''foo'' initial_state
     = Inr (initial_state\<lparr>loglevel := 0xffffffff80000000\<rparr>)"
proof -
  have h: "loglevel initial_state = loglevel (set_verbosity False initial_state)"
    by (simp add: set_verbosity_def)
  have v: "add_loglevel (replicate 30 ''x'' @ [''foo'', ''bar'']) ''foo'' initial_state
             = Inr (initial_state\<lparr>loglevel := 0xffffffff80000000\<rparr>)"
    by code_simp
  from loglevel_monotonic
         [of "replicate 30 ''x'' @ [''foo'', ''bar'']" "''foo''" initial_state initial_state
             "set_verbosity False initial_state"] h
  have k: "\<exists>s1 s2. add_loglevel (replicate 30 ''x'' @ [''foo'', ''bar'']) ''foo'' initial_state = Inr s1 \<and>
      add_loglevel (replicate 30 ''x'' @ [''foo'', ''bar'']) ''foo''
        (set_verbosity False initial_state) = Inr s2 \<and>
      loglevel s1 = loglevel s2"
    by blast
  from h k v show ?thesis by blast
qed

text \<open>
  C8. \<^verbatim>\<open>add_loglevel\<close> is idempotent: for every state and every name, the call returns,
  and a second call with the same name returns the state the first call returned; two
  calls in sequence end as one call does.
\<close>

theorem add_loglevel_idempotent:
  "\<exists>st'. add_loglevel lls name st = Inr st' \<and>
         add_loglevel lls name st' = Inr st' \<and>
         and_then (add_loglevel lls name st) (add_loglevel lls name) = Inr st'"
proof -
  obtain w where w: "\<And>st. add_loglevel lls name st = Inr (st\<lparr>loglevel := loglevel st OR w\<rparr>)"
    using add_loglevel_uniform [of lls name] by blast
  have "(loglevel st OR w) OR w = loglevel st OR w"
    by (simp add: or.assoc)
  then show ?thesis
    by (simp add: w)
qed

subsection \<open>Unknown names\<close>

text \<open>
  C9. A name that is not "all" up to letter case and equals no entry of the table up to
  letter case: \<^verbatim>\<open>add_loglevel\<close> returns and leaves the whole state as it was, the mask
  and what has been written to standard output included.
\<close>

theorem add_loglevel_unknown_noop:
  assumes "strcasecmp level ''all'' \<noteq> 0"
    and "\<forall>l \<in> set lls. strcasecmp l level \<noteq> 0"
  shows "add_loglevel lls level st = Inr st"
proof -
  from assms(2) have "\<forall>j. 0 \<le> j \<and> j < length lls \<longrightarrow> strcasecmp (lls ! j) level \<noteq> 0"
    by simp
  then have "add_loglevel_loop lls 0 level st = Inr st" by (rule loop_no_match)
  with assms(1) show ?thesis by (simp add: add_loglevel_def)
qed

theorem add_loglevel_unknown_noop_witness:
  "strcasecmp ''bogus'' ''all'' \<noteq> 0 \<and>
   strcasecmp ''event'' ''bogus'' \<noteq> 0 \<and> strcasecmp ''ipc'' ''bogus'' \<noteq> 0 \<and>
   add_loglevel [''event'', ''ipc''] ''bogus'' initial_state = Inr initial_state"
proof -
  have a: "strcasecmp ''bogus'' ''all'' \<noteq> 0" by code_simp
  have b: "\<forall>l \<in> set [''event'', ''ipc'']. strcasecmp l ''bogus'' \<noteq> 0" by code_simp
  from add_loglevel_unknown_noop [OF a b, of initial_state] a b show ?thesis by simp
qed

subsection \<open>A table entry spelled "all"\<close>

text \<open>
  C10. The claim: when the table has an entry spelled "all" at index \<open>i\<close>, the reserved
  name wins over it (see \<open>name_of_all_entry_sets_every_bit\<close>), so that bit \<open>i + 1\<close> of
  this entry can never be enabled on its own. What the code does: on the table of 33
  names with "all" at index 0 and "foo" at index 32, \<^verbatim>\<open>add_loglevel("foo")\<close> computes
  \<^verbatim>\<open>1 << 33\<close> in \<^verbatim>\<open>int\<close>, which comes out as bit 1; started from the empty mask the call
  returns with bit 1, the bit of the entry "all", set and no other bit.
\<close>

theorem all_entry_bit_set_alone:
  "length (''all'' # replicate 31 ''x'' @ [''foo'']) \<le> 63 \<and>
   strcasecmp ((''all'' # replicate 31 ''x'' @ [''foo'']) ! 0) ''all'' = 0 \<and>
   add_loglevel (''all'' # replicate 31 ''x'' @ [''foo'']) ''foo'' initial_state
     = Inr (initial_state\<lparr>loglevel := push_bit (0 + 1) 1\<rparr>) \<and>
   loglevel initial_state = 0 \<and>
   push_bit (0 + 1) 1 \<noteq> UINT64_MAX"
proof -
  have 1: "length (''all'' # replicate 31 ''x'' @ [''foo'']) \<le> 63" by simp
  have 2: "strcasecmp ((''all'' # replicate 31 ''x'' @ [''foo'']) ! 0) ''all'' = 0"
    by (simp add: strcasecmp_same)
  have 3: "add_loglevel (''all'' # replicate 31 ''x'' @ [''foo'']) ''foo'' initial_state
     = Inr (initial_state\<lparr>loglevel := push_bit (0 + 1) 1\<rparr>)"
    by code_simp
  have 4: "loglevel initial_state = 0" by (simp add: initial_state_def)
  have 5: "push_bit (0 + 1) 1 \<noteq> UINT64_MAX" by (simp add: UINT64_MAX_def)
  from 1 2 3 4 5 show ?thesis by blast
qed

end
